theory Spec2Isabelle
  imports Complex_Main "HOL-Library.Sublist" "HOL-Library.AList" "HOL-Library.Multiset"
begin

section \<open>Python string operations\<close>

text \<open>
  A Python \<open>str\<close> is modelled as a \<open>string\<close> (a list of characters), one \<open>char\<close> per
  character; the texts are taken to be ASCII, so \<open>len\<close> is \<open>length\<close> and \<open>str.lower\<close>
  maps \<open>A..Z\<close> to \<open>a..z\<close> and leaves every other character alone.
\<close>

definition lower_char :: "char \<Rightarrow> char" where
  "lower_char c =
     (case map_of (zip ''ABCDEFGHIJKLMNOPQRSTUVWXYZ'' ''abcdefghijklmnopqrstuvwxyz'') c of
        Some l \<Rightarrow> l
      | None \<Rightarrow> c)"

definition lower :: "string \<Rightarrow> string" where
  "lower s = map lower_char s"

text \<open>The ASCII characters for which \<open>str.isspace\<close> holds: tab, line feed, vertical tab,
  form feed, carriage return, the four separators 0x1C-0x1F and the space.\<close>

definition is_space :: "char \<Rightarrow> bool" where
  "is_space c \<longleftrightarrow>
     c \<in> set [CHR 0x09, CHR 0x0A, CHR 0x0B, CHR 0x0C, CHR 0x0D,
              CHR 0x1C, CHR 0x1D, CHR 0x1E, CHR 0x1F, CHR '' '']"

text \<open>\<open>s.strip()\<close>: whitespace removed at both ends.\<close>

definition strip :: "string \<Rightarrow> string" where
  "strip s = rev (dropWhile is_space (rev (dropWhile is_space s)))"

text \<open>\<open>s.split()\<close>: the maximal runs of non-whitespace characters, in order.\<close>

fun words_acc :: "string \<Rightarrow> string \<Rightarrow> string list" where
  "words_acc cur [] = (if cur = [] then [] else [cur])"
| "words_acc cur (c # cs) =
     (if is_space c then (if cur = [] then words_acc [] cs else cur # words_acc [] cs)
      else words_acc (cur @ [c]) cs)"

definition split_ws :: "string \<Rightarrow> string list" where
  "split_ws s = words_acc [] s"

text \<open>\<open>s.split(sep)\<close> for a one-character separator: every piece between two separators,
  the empty ones included, so the result is never empty.\<close>

fun split_acc :: "char \<Rightarrow> string \<Rightarrow> string \<Rightarrow> string list" where
  "split_acc sep cur [] = [cur]"
| "split_acc sep cur (c # cs) =
     (if c = sep then cur # split_acc sep [] cs else split_acc sep (cur @ [c]) cs)"

definition split_on :: "char \<Rightarrow> string \<Rightarrow> string list" where
  "split_on sep s = split_acc sep [] s"

text \<open>\<open>sub in s\<close>: \<open>sub\<close> occurs in \<open>s\<close> as a contiguous substring.\<close>

fun str_in :: "string \<Rightarrow> string \<Rightarrow> bool" where
  "str_in sub [] = (sub = [])"
| "str_in sub (c # cs) = (prefix sub (c # cs) \<or> str_in sub cs)"

text \<open>\<open>s.replace(a, b)\<close> for one-character \<open>a\<close> and \<open>b\<close>.\<close>

definition replace :: "char \<Rightarrow> char \<Rightarrow> string \<Rightarrow> string" where
  "replace a b s = map (\<lambda>c. if c = a then b else c) s"

text \<open>\<open>sep.join(parts)\<close>.\<close>

fun join :: "string \<Rightarrow> string list \<Rightarrow> string" where
  "join sep [] = []"
| "join sep [p] = p"
| "join sep (p # q # ps) = p @ sep @ join sep (q # ps)"

text \<open>\<open>xs[-n:]\<close> for a positive \<open>n\<close>: the last \<open>n\<close> elements, all of them when there are fewer.\<close>

definition last_n :: "nat \<Rightarrow> 'a list \<Rightarrow> 'a list" where
  "last_n n xs = drop (length xs - n) xs"

section \<open>Usage analytics (web_app.py)\<close>

text \<open>An entry of the list \<open>document_excerpts\<close> built by \<open>get_document_excerpts\<close>: the
  dictionary with the keys \<open>document\<close>, \<open>text\<close> (the field \<open>excerpt_text\<close>) and
  \<open>highlight\<close>.\<close>

record excerpt =
  document :: string
  excerpt_text :: string
  highlight :: string

record user_data =
  query_count :: int
  first_seen :: string
  last_seen :: string
  user_departments :: "string set"

text \<open>The global dictionary \<open>usage_analytics\<close>. The key \<open>departments\<close> of a user's entry is
  the field \<open>user_departments\<close>; \<open>session_durations\<close> is never written by the functions
  modelled here.\<close>

record analytics =
  total_queries :: int
  users :: "string \<rightharpoonup> user_data"
  departments :: "string \<rightharpoonup> int"
  documents_accessed :: "string \<rightharpoonup> int"
  query_types :: "string \<rightharpoonup> int"
  daily_usage :: "string \<rightharpoonup> int"
  response_times :: "real list"
  popular_queries :: "string list"
  error_count :: int

definition usage_analytics_init :: analytics where
  "usage_analytics_init =
     \<lparr>total_queries = 0, users = Map.empty, departments = Map.empty,
      documents_accessed = Map.empty, query_types = Map.empty, daily_usage = Map.empty,
      response_times = [], popular_queries = [], error_count = 0\<rparr>"

text \<open>\<open>if k not in d: d[k] = 0\<close> followed by \<open>d[k] += 1\<close>.\<close>

definition count_up :: "(string \<rightharpoonup> int) \<Rightarrow> string \<Rightarrow> (string \<rightharpoonup> int)" where
  "count_up d k = (case d k of None \<Rightarrow> d(k \<mapsto> 0 + 1) | Some n \<Rightarrow> d(k \<mapsto> n + 1))"

definition contains_any :: "string list \<Rightarrow> string \<Rightarrow> bool" where
  "contains_any ws query_lower = list_ex (\<lambda>word. str_in word query_lower) ws"

definition classify_query_type :: "string \<Rightarrow> string" where
  "classify_query_type query =
     (let query_lower = lower query in
      if contains_any [''pto'', ''vacation'', ''time off'', ''leave'', ''holiday''] query_lower
        then ''PTO & Leave''
      else if contains_any [''health'', ''medical'', ''benefits'', ''insurance'', ''dental'']
                query_lower
        then ''Health Benefits''
      else if contains_any [''security'', ''password'', ''it policy'', ''vpn'', ''network'']
                query_lower
        then ''IT Security''
      else if contains_any [''handbook'', ''policy'', ''employee'', ''work hours'', ''dress code'']
                query_lower
        then ''Employee Handbook''
      else if contains_any [''org'', ''organization'', ''structure'', ''contact'', ''email'',
                ''phone''] query_lower
        then ''Organization''
      else if contains_any [''claude'', ''ai'', ''usage'', ''policy''] query_lower
        then ''AI Usage''
      else ''General'')"

text \<open>The user's entry after the block "Track users": created when absent, then counted,
  stamped and extended by the department.\<close>

definition track_user :: "(string \<rightharpoonup> user_data) \<Rightarrow> string \<Rightarrow> string \<Rightarrow> string
    \<Rightarrow> (string \<rightharpoonup> user_data)" where
  "track_user us user_id department today =
     (let user_data = (case us user_id of
                         None \<Rightarrow> \<lparr>query_count = 0, first_seen = today, last_seen = today,
                                  user_departments = {}\<rparr>
                       | Some u \<Rightarrow> u)
      in us(user_id \<mapsto> user_data\<lparr>query_count := query_count user_data + 1, last_seen := today,
              user_departments := insert department (user_departments user_data)\<rparr>))"

text \<open>The loop \<open>for doc in documents_used\<close>.\<close>

fun track_documents :: "(string \<rightharpoonup> int) \<Rightarrow> excerpt list \<Rightarrow> (string \<rightharpoonup> int)" where
  "track_documents acc [] = acc"
| "track_documents acc (doc # rest) = track_documents (count_up acc (document doc)) rest"

text \<open>\<open>log_usage_analytics\<close> on the global \<open>usage_analytics\<close>, passed in and returned;
  \<open>today\<close> is the date string the clock gives.\<close>

definition log_usage_analytics :: "string \<Rightarrow> string \<Rightarrow> string \<Rightarrow> real \<Rightarrow> excerpt list \<Rightarrow> bool
    \<Rightarrow> string \<Rightarrow> analytics \<Rightarrow> analytics" where
  "log_usage_analytics user_id department query response_time documents_used error_occurred
     today a =
     (let a1 = a\<lparr>total_queries := total_queries a + 1\<rparr>;
          a2 = a1\<lparr>users := track_user (users a1) user_id department today\<rparr>;
          a3 = a2\<lparr>departments := count_up (departments a2) department\<rparr>;
          a4 = a3\<lparr>documents_accessed := track_documents (documents_accessed a3) documents_used\<rparr>;
          a5 = a4\<lparr>query_types := count_up (query_types a4) (classify_query_type query)\<rparr>;
          a6 = a5\<lparr>daily_usage := count_up (daily_usage a5) today\<rparr>;
          a7 = a6\<lparr>response_times := response_times a6 @ [response_time]\<rparr>;
          a8 = (if length (response_times a7) > 100
                then a7\<lparr>response_times := last_n 100 (response_times a7)\<rparr> else a7);
          a9 = a8\<lparr>popular_queries := popular_queries a8 @ [take 100 query]\<rparr>;
          a10 = (if length (popular_queries a9) > 50
                 then a9\<lparr>popular_queries := last_n 50 (popular_queries a9)\<rparr> else a9)
      in if error_occurred then a10\<lparr>error_count := error_count a10 + 1\<rparr> else a10)"

text \<open>The bounds of the analytics state: at most 100 response times, at most 50 recent
  queries, each of at most 100 characters.\<close>

definition analytics_bounded :: "analytics \<Rightarrow> bool" where
  "analytics_bounded a \<longleftrightarrow>
     length (response_times a) \<le> 100 \<and> length (popular_queries a) \<le> 50 \<and>
     list_all (\<lambda>q. length q \<le> 100) (popular_queries a)"

section \<open>The document processor (document_processor.py)\<close>

text \<open>\<open>s.rfind(c)\<close>: the index of the last occurrence of \<open>c\<close> in \<open>s\<close>, or -1.\<close>

definition rfind :: "char \<Rightarrow> string \<Rightarrow> int" where
  "rfind c s =
     (if c \<in> set s then int (length s) - 1 - int (length (takeWhile (\<lambda>x. x \<noteq> c) (rev s)))
      else - 1)"

text \<open>\<open>os.path.splitext\<close> (POSIX): the extension starts at the last dot of the last path
  component, unless only dots precede that dot in the component.\<close>

definition splitext :: "string \<Rightarrow> string \<times> string" where
  "splitext p =
     (let sepIndex = rfind CHR ''/'' p;
          dotIndex = rfind CHR ''.'' p
      in if dotIndex > sepIndex \<and>
            list_ex (\<lambda>c. c \<noteq> CHR ''.'')
              (take (nat (dotIndex - (sepIndex + 1))) (drop (nat (sepIndex + 1)) p))
         then (take (nat dotIndex) p, drop (nat dotIndex) p)
         else (p, []))"

text \<open>\<open>os.path.join\<close> (POSIX) of two components.\<close>

definition path_join :: "string \<Rightarrow> string \<Rightarrow> string" where
  "path_join a b =
     (if prefix ''/'' b then b
      else if a = [] \<or> last a = CHR ''/'' then a @ b
      else a @ ''/'' @ b)"

definition supported_extensions :: "string list" where
  "supported_extensions = [''.txt'', ''.pdf'', ''.doc'', ''.docx'', ''.rtf'']"

text \<open>The document key of a file name:
  \<open>os.path.splitext(filename)[0].replace(' ', '_').replace('-', '_')\<close>.\<close>

definition doc_key :: "string \<Rightarrow> string" where
  "doc_key filename = replace CHR ''-'' CHR ''_'' (replace CHR '' '' CHR ''_'' (fst (splitext filename)))"

text \<open>
  The call \<open>anthropic_client.messages.create\<close> is outside the program. On a prompt it
  raises with a message, or returns a response without content, or returns a response whose
  first content block reads as a text.
\<close>

datatype generator_outcome =
  Raises string
| NoContent
| Content string

text \<open>
  What the functions see of their environment. The documents folder is missing (and
  \<open>os.makedirs\<close> creates it, or raises), or \<open>os.listdir\<close> raises, or it lists entries: each a
  file name with the answer of \<open>os.path.isdir\<close>, in the order of the listing. \<open>reads\<close> is the
  outcome, for a path, of the format reader that \<open>extract_text_from_file\<close> calls on it: the
  text, or \<open>Inl\<close> the message of the exception it raises. \<open>processor\<close> is the global
  \<open>dynamic_doc_processor\<close>: \<open>None\<close>, or a processor with its \<open>documents_folder\<close>. \<open>client\<close>
  tells whether the global \<open>anthropic_client\<close> is set, and \<open>generator\<close> is what the external
  call does on each prompt. \<open>log\<close> collects the messages of \<open>logger.error\<close>.
\<close>

datatype folder_state =
  Missing
| Uncreatable string
| Unlistable string
| Listing "(string \<times> bool) list"

record world =
  processor :: "string option"
  client :: bool
  generator :: "string \<Rightarrow> generator_outcome"
  folder :: folder_state
  reads :: "string \<Rightarrow> string + string"
  log :: "string list"

text \<open>\<open>documents[doc_key] = file_path\<close> on a dictionary kept as the list of its items in
  insertion order is \<open>AList.update\<close>: a present key keeps its place and takes the new value,
  an absent one is added at the end.\<close>

text \<open>The loop of \<open>scan_documents_folder\<close> over the listing.\<close>

fun scan_entries :: "string \<Rightarrow> (string \<times> bool) list \<Rightarrow> (string \<times> string) list
    \<Rightarrow> (string \<times> string) list" where
  "scan_entries documents_folder [] documents = documents"
| "scan_entries documents_folder ((filename, is_dir) # rest) documents =
     (let file_path = path_join documents_folder filename in
      if is_dir then scan_entries documents_folder rest documents
      else let ext = snd (splitext (lower filename)) in
        if ext \<in> set supported_extensions
        then scan_entries documents_folder rest
               (AList.update (doc_key filename) file_path documents)
        else scan_entries documents_folder rest documents)"

text \<open>\<open>scan_documents_folder\<close>: \<open>Inl\<close> is the exception that leaves the function.\<close>

definition scan_documents_folder :: "string \<Rightarrow> world
    \<Rightarrow> (string + (string \<times> string) list) \<times> world" where
  "scan_documents_folder documents_folder w =
     (case folder w of
        Missing \<Rightarrow> (Inr [], w\<lparr>folder := Listing []\<rparr>)
      | Uncreatable e \<Rightarrow> (Inl e, w)
      | Unlistable e \<Rightarrow> (Inl e, w)
      | Listing entries \<Rightarrow> (Inr (scan_entries documents_folder entries []), w))"

text \<open>\<open>extract_text_from_file\<close>: an exception of the reader becomes the returned text.\<close>

definition extract_text_from_file :: "world \<Rightarrow> string \<Rightarrow> string" where
  "extract_text_from_file w file_path =
     (let ext = snd (splitext (lower file_path)) in
      if ext \<in> set [''.txt'', ''.pdf'', ''.docx'', ''.doc'', ''.rtf'']
      then (case reads w file_path of
              Inr content \<Rightarrow> content
            | Inl e \<Rightarrow> ''Error reading '' @ file_path @ '': '' @ e)
      else ''Unsupported file format: '' @ ext)"

section \<open>The relevance matcher (web_app.py, find_relevant_documents)\<close>

text \<open>An element of \<open>relevant_docs\<close>: \<open>(doc_name, file_path, total_score, content)\<close>.\<close>

type_synonym candidate = "string \<times> string \<times> int \<times> string"

definition cand_name :: "candidate \<Rightarrow> string" where
  "cand_name x = fst x"

definition cand_path :: "candidate \<Rightarrow> string" where
  "cand_path x = fst (snd x)"

definition cand_score :: "candidate \<Rightarrow> int" where
  "cand_score x = fst (snd (snd x))"

definition cand_content :: "candidate \<Rightarrow> string" where
  "cand_content x = snd (snd (snd x))"

text \<open>The dictionary \<open>doc_patterns\<close>, as its items in insertion order.\<close>

definition doc_patterns :: "(string \<times> string list) list" where
  "doc_patterns =
     [(''employee_handbook'', [''handbook'', ''employee'', ''work hours'', ''dress code'',
         ''performance'', ''mission'', ''core hours'', ''collaboration'', ''growth'']),
      (''pto_policy'', [''pto'', ''vacation'', ''time off'', ''leave'', ''holiday'', ''sick days'',
         ''personal days'', ''paid time'']),
      (''health_benefits'', [''health'', ''medical'', ''benefits'', ''insurance'', ''healthcare'',
         ''dental'', ''vision'', ''coverage'']),
      (''it_security_policy'', [''security'', ''password'', ''it policy'', ''network'', ''vpn'',
         ''device'', ''data protection'', ''cybersecurity'']),
      (''claude_usage_policy'', [''claude'', ''ai'', ''artificial intelligence'', ''usage policy'',
         ''ai guidelines'']),
      (''org_structure'', [''organization'', ''structure'', ''department'', ''team'', ''hierarchy'',
         ''reporting''])]"

definition stop_words :: "string list" where
  "stop_words = [''the'', ''and'', ''for'', ''with'', ''about'', ''what'', ''how'', ''can'', ''you'']"

definition query_words_of :: "string \<Rightarrow> string list" where
  "query_words_of query_lower =
     filter (\<lambda>word. length word > 2 \<and> word \<notin> set stop_words) (split_ws query_lower)"

text \<open>\<open>sum(1 for x in xs if x in s)\<close>.\<close>

definition count_in :: "string list \<Rightarrow> string \<Rightarrow> int" where
  "count_in xs s = int (length (filter (\<lambda>x. str_in x s) xs))"

text \<open>The value of \<open>pattern_score\<close> at the end of one round of the loop over \<open>doc_patterns\<close>.\<close>

definition pattern_score :: "string \<Rightarrow> string \<Rightarrow> string \<times> string list \<Rightarrow> int" where
  "pattern_score query_lower doc_name_lower item =
     (let pattern_name = fst item; keywords = snd item;
          query_pattern_matches = count_in keywords query_lower
      in if list_ex (\<lambda>pattern_part. str_in pattern_part doc_name_lower)
              (split_on CHR ''_'' pattern_name)
         then 0 + query_pattern_matches * 5
         else 0)"

text \<open>The loop over \<open>doc_patterns\<close>, carrying \<open>best_pattern_score\<close> (the variable
  \<open>matching_pattern\<close> is never read and is left out).\<close>

fun best_pattern_loop :: "string \<Rightarrow> string \<Rightarrow> (string \<times> string list) list \<Rightarrow> int \<Rightarrow> int" where
  "best_pattern_loop query_lower doc_name_lower [] best = best"
| "best_pattern_loop query_lower doc_name_lower (item # rest) best =
     (let s = pattern_score query_lower doc_name_lower item
      in best_pattern_loop query_lower doc_name_lower rest (if s > best then s else best))"

definition best_pattern_score :: "string \<Rightarrow> string \<Rightarrow> int" where
  "best_pattern_score query_lower doc_name =
     best_pattern_loop query_lower (lower doc_name) doc_patterns 0"

definition content_matches :: "string \<Rightarrow> string \<Rightarrow> int" where
  "content_matches query_lower content = count_in (query_words_of query_lower) (lower content)"

definition name_matches :: "string \<Rightarrow> string \<Rightarrow> int" where
  "name_matches query_lower doc_name = count_in (query_words_of query_lower) (lower doc_name)"

definition total_score :: "string \<Rightarrow> string \<Rightarrow> string \<Rightarrow> int" where
  "total_score query_lower doc_name content =
     content_matches query_lower content * 2 + name_matches query_lower doc_name * 3
       + best_pattern_score query_lower doc_name"

text \<open>The condition under which a document is appended to \<open>relevant_docs\<close>.\<close>

definition admitted :: "string \<Rightarrow> string \<Rightarrow> string \<Rightarrow> bool" where
  "admitted query_lower doc_name content \<longleftrightarrow>
     total_score query_lower doc_name content \<ge> 5 \<and>
     (name_matches query_lower doc_name > 0 \<or> content_matches query_lower content > 2 \<or>
      best_pattern_score query_lower doc_name > 0)"

text \<open>The loop over \<open>document_files.items()\<close>, carrying \<open>relevant_docs\<close>.\<close>

fun score_documents :: "world \<Rightarrow> string \<Rightarrow> (string \<times> string) list \<Rightarrow> candidate list
    \<Rightarrow> candidate list" where
  "score_documents w query_lower [] relevant_docs = relevant_docs"
| "score_documents w query_lower ((doc_name, file_path) # rest) relevant_docs =
     (let content = extract_text_from_file w file_path in
      score_documents w query_lower rest
        (if admitted query_lower doc_name content
         then relevant_docs @ [(doc_name, file_path, total_score query_lower doc_name content,
                                content)]
         else relevant_docs))"

text \<open>
  The end of the function: \<open>relevant_docs.sort(key=lambda x: x[2], reverse=True)\<close> is a
  stable sort by descending score, which is the stable \<open>sort_key\<close> on the negated score;
  then the cut to one or two documents.
\<close>

definition rank_candidates :: "candidate list \<Rightarrow> candidate list" where
  "rank_candidates relevant_docs =
     (let sorted_docs = sort_key (\<lambda>x. - cand_score x) relevant_docs in
      if length sorted_docs \<ge> 2 \<and> cand_score (sorted_docs ! 0) > cand_score (sorted_docs ! 1) * 2
      then take 1 sorted_docs
      else take 2 sorted_docs)"

text \<open>\<open>find_relevant_documents\<close>. An exception in the \<open>try\<close> block can only come from
  \<open>scan_documents_folder\<close>; it is logged and the result is the empty list.\<close>

definition find_relevant_documents :: "string \<Rightarrow> world \<Rightarrow> candidate list \<times> world" where
  "find_relevant_documents query w =
     (case processor w of
        None \<Rightarrow> ([], w)
      | Some documents_folder \<Rightarrow>
          (let query_lower = lower query in
           case scan_documents_folder documents_folder w of
             (Inl e, w') \<Rightarrow>
               ([], w'\<lparr>log := log w' @ [''Error finding relevant documents: '' @ e]\<rparr>)
           | (Inr document_files, w') \<Rightarrow>
               (rank_candidates (score_documents w' query_lower document_files []), w')))"

section \<open>Excerpts, the generator call and the source filter (web_app.py)\<close>

text \<open>One round of the loop of \<open>get_document_excerpts\<close>: the dictionary appended for a
  candidate. Character 0x0A is the line feed.\<close>

definition make_excerpt :: "string list \<Rightarrow> candidate \<Rightarrow> excerpt" where
  "make_excerpt query_words x =
     (let doc_name = cand_name x; content = cand_content x;
          cleaned_content =
            join [CHR 0x0A] (map strip (filter (\<lambda>line. strip line \<noteq> [])
              (split_on CHR 0x0A content)));
          lines = split_on CHR 0x0A content;
          highlight_lines =
            map strip (filter (\<lambda>line. list_ex (\<lambda>word. str_in word (lower line)) query_words)
              lines);
          highlight_text =
            (if highlight_lines \<noteq> [] then join [CHR 0x0A] (take 2 highlight_lines)
             else take 200 content);
          highlight_text2 =
            (if length highlight_text > 200 then take 200 highlight_text @ ''...''
             else highlight_text)
      in \<lparr>document = doc_name, excerpt_text = cleaned_content, highlight = highlight_text2\<rparr>)"

definition get_document_excerpts :: "candidate list \<Rightarrow> string \<Rightarrow> excerpt list" where
  "get_document_excerpts relevant_docs query =
     (let query_words = map lower (filter (\<lambda>word. length word > 2) (split_ws query))
      in map (make_excerpt query_words) relevant_docs)"











text \<open>The first test of the source filter: a word of the document name occurs in the
  lowercased response.\<close>

definition name_mentioned :: "string \<Rightarrow> string \<Rightarrow> bool" where
  "name_mentioned response_lower doc_name =
     list_ex (\<lambda>part. str_in part response_lower)
       (split_ws (replace CHR ''_'' CHR '' '' doc_name))"

definition key_phrases_from_doc :: "string \<Rightarrow> string list" where
  "key_phrases_from_doc excerpt_text_lower =
     take 3 (map strip (filter (\<lambda>phrase. length (strip phrase) > 20)
       (split_on CHR ''.'' excerpt_text_lower)))"

text \<open>
  The loop over the key phrases, carrying \<open>is_referenced\<close>; the \<open>break\<close> ends it with
  \<open>True\<close>. The source compares the integer \<open>matching_words\<close> with the double
  \<open>len(phrase_words) * 0.6\<close>; the model compares with the exact product. The two agree for
  every list a text can hold: for a length that is a multiple of 5 the double product is the
  exact integer, and otherwise the exact product is at least 0.2 away from every integer while
  the rounding error is far smaller.
\<close>

fun phrase_loop :: "string \<Rightarrow> string list \<Rightarrow> bool \<Rightarrow> bool" where
  "phrase_loop response_lower [] is_ref = is_ref"
| "phrase_loop response_lower (phrase # rest) is_ref =
     (let phrase_words = filter (\<lambda>w. length w > 4) (split_ws phrase) in
      if length phrase_words \<ge> 2 then
        (let matching_words = length (filter (\<lambda>word. str_in word response_lower) phrase_words)
         in if real matching_words \<ge> real (length phrase_words) * 0.6 then True
            else phrase_loop response_lower rest is_ref)
      else phrase_loop response_lower rest is_ref)"

text \<open>The value of \<open>is_referenced\<close> for one excerpt at the end of the round.\<close>

definition is_referenced :: "string \<Rightarrow> excerpt \<Rightarrow> bool" where
  "is_referenced response_lower excerpt =
     (let doc_name = lower (document excerpt);
          excerpt_text_lower = lower (excerpt_text excerpt);
          key_phrases = key_phrases_from_doc excerpt_text_lower;
          is_ref = (if name_mentioned response_lower doc_name then True else False)
      in phrase_loop response_lower key_phrases is_ref)"

text \<open>The loop over \<open>document_excerpts\<close>, carrying \<open>actual_sources\<close>.\<close>

fun source_loop :: "string \<Rightarrow> excerpt list \<Rightarrow> excerpt list \<Rightarrow> excerpt list" where
  "source_loop response_lower [] actual_sources = actual_sources"
| "source_loop response_lower (excerpt # rest) actual_sources =
     source_loop response_lower rest
       (if is_referenced response_lower excerpt then actual_sources @ [excerpt]
        else actual_sources)"

text \<open>The source filter of \<open>process_query\<close>: from the response and the excerpts offered to
  the generator to \<open>actual_sources\<close>.\<close>

definition filter_sources :: "string \<Rightarrow> excerpt list \<Rightarrow> excerpt list" where
  "filter_sources response document_excerpts =
     source_loop (lower response) document_excerpts []"

record query_result =
  response :: string
  sources :: "excerpt list"
  processing_time :: real
  optimization_tips :: "string list"






section \<open>Notions of the specification\<close>

text \<open>
  The pattern score in the words of the specification: for each topic, the number of its
  keywords in the lowercased query, multiplied by 5 only if the document identifier, split
  on its separator, shares a token with the topic name; the maximum over the topics. The
  factor of a topic that shares no token is the argument \<open>unshared\<close>: 1 when "only if" leaves
  the count as it is, 0 when it drops the topic.
\<close>

definition shares_token :: "string \<Rightarrow> string \<Rightarrow> bool" where
  "shares_token doc_name_lower pattern_name =
     list_ex (\<lambda>t. t \<in> set (split_on CHR ''_'' pattern_name))
       (split_on CHR ''_'' doc_name_lower)"

definition spec_pattern_score :: "int \<Rightarrow> string \<Rightarrow> string \<Rightarrow> int" where
  "spec_pattern_score unshared query_lower doc_name =
     Max (set (map (\<lambda>item. count_in (snd item) query_lower *
                      (if shares_token (lower doc_name) (fst item) then 5 else unshared))
            doc_patterns))"

text \<open>The corpus a run sees: the scanned documents in scan order, each with its identifier,
  its path and its extracted text.\<close>

definition corpus :: "world \<Rightarrow> (string \<times> string \<times> string) list" where
  "corpus w =
     (case processor w of
        None \<Rightarrow> []
      | Some documents_folder \<Rightarrow>
          (case folder w of
             Listing entries \<Rightarrow>
               map (\<lambda>(doc_name, file_path).
                     (doc_name, file_path, extract_text_from_file w file_path))
                 (scan_entries documents_folder entries [])
           | _ \<Rightarrow> []))"

text \<open>The supported files of a listing, in listing order: the entries that the scan stores.\<close>

definition supported_files :: "(string \<times> bool) list \<Rightarrow> string list" where
  "supported_files entries =
     map fst (filter (\<lambda>(filename, is_dir).
                \<not> is_dir \<and> snd (splitext (lower filename)) \<in> set supported_extensions) entries)"

text \<open>The list \<open>relevant_docs\<close> of \<open>find_relevant_documents\<close> as the loop over the
  documents leaves it, before the sort: the admitted candidates in scan order (empty where the
  function returns before the loop).\<close>

definition admitted_candidates :: "string \<Rightarrow> world \<Rightarrow> candidate list" where
  "admitted_candidates query w =
     (case processor w of
        None \<Rightarrow> []
      | Some documents_folder \<Rightarrow>
          (case scan_documents_folder documents_folder w of
             (Inl e, w') \<Rightarrow> []
           | (Inr document_files, w') \<Rightarrow> score_documents w' (lower query) document_files []))"

section \<open>A sample environment\<close>

text \<open>A documents folder with two readable documents, a directory, and a file whose
  reader fails.\<close>

definition pto_text :: string where
  "pto_text = ''Employees receive 15 days of paid time off annually. '' @
     ''Vacation requests must be submitted two weeks in advance.''"

definition notes_text :: string where
  "notes_text = ''Ask your manager about vacation and leave policy.''"

definition demo_world :: world where
  "demo_world =
     \<lparr>processor = Some ''documents'', client = True,
      generator = (\<lambda>prompt. Content ''Employees receive fifteen of them annually.''),
      folder = Listing [(''pto_policy.txt'', False), (''notes.txt'', False), (''archive'', True),
                        (''memo.txt'', False)],
      reads = (\<lambda>p. if p = ''documents/pto_policy.txt'' then Inr pto_text
                    else if p = ''documents/notes.txt'' then Inr notes_text
                    else Inl ''Permission denied''),
      log = []\<rparr>"

text \<open>A folder of files that all read as the same text, listed in a given order.\<close>

definition same_text_world :: "(string \<times> bool) list \<Rightarrow> world" where
  "same_text_world entries =
     \<lparr>processor = Some ''documents'', client = True,
      generator = (\<lambda>prompt. NoContent),
      folder = Listing entries,
      reads = (\<lambda>p. Inr ''vacation leave policy''),
      log = []\<rparr>"



section \<open>Properties of the analytics update\<close>

lemma set_last_n: "set (last_n n xs) \<subseteq> set xs"
  by (simp add: last_n_def set_drop_subset)

lemma length_last_n: "length (last_n n xs) \<le> n"
  by (simp add: last_n_def)

lemma log_usage_analytics_response_times:
  "response_times (log_usage_analytics u d q t docs err today a) =
     (if length (response_times a) + 1 > 100 then last_n 100 (response_times a @ [t])
      else response_times a @ [t])"
  by (simp add: log_usage_analytics_def Let_def)

lemma log_usage_analytics_popular_queries:
  "popular_queries (log_usage_analytics u d q t docs err today a) =
     (if length (popular_queries a) + 1 > 50 then last_n 50 (popular_queries a @ [take 100 q])
      else popular_queries a @ [take 100 q])"
  by (simp add: log_usage_analytics_def Let_def)

text \<open>
  Claim C10. After a call of \<open>log_usage_analytics\<close> on an analytics state within its bounds,
  the state is within its bounds again: the response-times list has at most 100 entries, the
  recent-queries list at most 50, and every stored query has at most 100 characters.
\<close>

theorem log_usage_analytics_bounded:
  assumes "analytics_bounded a"
  shows "analytics_bounded (log_usage_analytics user_id department query response_time
           documents_used error_occurred today a)"
proof -
  let ?a' = "log_usage_analytics user_id department query response_time
               documents_used error_occurred today a"
  have rt: "length (response_times ?a') \<le> 100"
    using length_last_n [of 100 "response_times a @ [response_time]"]
    by (simp add: log_usage_analytics_response_times)
  have pq: "length (popular_queries ?a') \<le> 50"
    using length_last_n [of 50 "popular_queries a @ [take 100 query]"]
    by (simp add: log_usage_analytics_popular_queries)
  have old: "\<forall>q \<in> set (popular_queries a @ [take 100 query]). length q \<le> 100"
    using assms by (auto simp: analytics_bounded_def list_all_iff)
  have "set (popular_queries ?a') \<subseteq> set (popular_queries a @ [take 100 query])"
    using set_last_n [of 50 "popular_queries a @ [take 100 query]"]
    by (simp only: log_usage_analytics_popular_queries split: if_split) blast
  with old have "\<forall>q \<in> set (popular_queries ?a'). length q \<le> 100"
    by blast
  with rt pq show ?thesis
    by (simp add: analytics_bounded_def list_all_iff)
qed

theorem log_usage_analytics_bounded_witness:
  "analytics_bounded usage_analytics_init \<and>
   analytics_bounded (log_usage_analytics ''u1'' ''HR'' ''How many vacation days do I get?''
     (1 / 2) [] False ''2025-01-01'' usage_analytics_init)"
proof -
  have h: "analytics_bounded usage_analytics_init"
    by (simp add: analytics_bounded_def usage_analytics_init_def)
  show ?thesis
    using h log_usage_analytics_bounded [OF h] by simp
qed

section \<open>Properties of the relevance matcher\<close>

lemma score_documents_eq:
  "score_documents w q files acc =
     acc @ map (\<lambda>(n, p). (n, p, total_score q n (extract_text_from_file w p),
                          extract_text_from_file w p))
             (filter (\<lambda>(n, p). admitted q n (extract_text_from_file w p)) files)"
  by (induction files arbitrary: acc) (auto simp: Let_def)

lemma find_relevant_documents_rank:
  "fst (find_relevant_documents query w) = rank_candidates (admitted_candidates query w)"
  by (auto simp: find_relevant_documents_def admitted_candidates_def rank_candidates_def Let_def
      split: option.splits sum.splits prod.splits)

lemma length_rank_candidates: "length (rank_candidates xs) \<le> 2"
  by (simp add: rank_candidates_def Let_def)

lemma set_rank_candidates: "set (rank_candidates xs) \<subseteq> set xs"
proof -
  have "set (take n (sort_key (\<lambda>x. - cand_score x) xs)) \<subseteq> set xs" for n
    using set_take_subset [of n "sort_key (\<lambda>x. - cand_score x) xs"] by simp
  then show ?thesis
    by (simp add: rank_candidates_def Let_def)
qed

lemma sorted_desc_sort_key:
  "sorted_wrt (\<lambda>x y. cand_score x \<ge> cand_score y) (sort_key (\<lambda>x. - cand_score x) xs)"
proof -
  have "sorted (map (\<lambda>x. - cand_score x) (sort_key (\<lambda>x. - cand_score x) xs))"
    by (rule sorted_sort_key)
  then show ?thesis
    by (simp add: sorted_map sorted_wrt_iff_nth_less)
qed

lemma extract_text_from_file_reads:
  assumes "reads w' = reads w"
  shows "extract_text_from_file w' p = extract_text_from_file w p"
  unfolding extract_text_from_file_def assms by (rule refl)

lemma admitted_candidates_elem:
  assumes "x \<in> set (admitted_candidates query w)"
  shows "admitted (lower query) (cand_name x) (cand_content x) \<and>
         cand_score x = total_score (lower query) (cand_name x) (cand_content x) \<and>
         cand_content x = extract_text_from_file w (cand_path x)"
proof (cases "processor w")
  case None
  with assms show ?thesis by (simp add: admitted_candidates_def)
next
  case (Some documents_folder)
  show ?thesis
  proof (cases "folder w")
    case (Listing entries)
    with Some assms show ?thesis
      by (auto simp: admitted_candidates_def scan_documents_folder_def score_documents_eq
          cand_name_def cand_content_def cand_score_def cand_path_def)
  qed (use Some assms in \<open>simp_all add: admitted_candidates_def scan_documents_folder_def\<close>)
qed

text \<open>
  Claim C1. The relevance matcher returns at most two candidates. The admitted candidates,
  sorted, are in descending order of score, are the same candidates, and the candidates of
  any one score keep their scan order. When there are at least two and the score of the
  first exceeds twice the score of the second, the result is the first alone; otherwise it
  is the first two.
\<close>

theorem dominance_rule:
  "let relevant_docs = admitted_candidates query w;
       sorted_docs = sort_key (\<lambda>x. - cand_score x) relevant_docs;
       result = fst (find_relevant_documents query w)
   in length result \<le> 2 \<and>
      sorted_wrt (\<lambda>x y. cand_score x \<ge> cand_score y) sorted_docs \<and>
      mset sorted_docs = mset relevant_docs \<and>
      (\<forall>k. filter (\<lambda>x. cand_score x = k) sorted_docs =
           filter (\<lambda>x. cand_score x = k) relevant_docs) \<and>
      (length sorted_docs \<ge> 2 \<and> cand_score (sorted_docs ! 0) > 2 * cand_score (sorted_docs ! 1)
         \<longrightarrow> result = take 1 sorted_docs) \<and>
      (\<not> (length sorted_docs \<ge> 2 \<and>
           cand_score (sorted_docs ! 0) > 2 * cand_score (sorted_docs ! 1))
         \<longrightarrow> result = take 2 sorted_docs)"
proof -
  let ?rel = "admitted_candidates query w"
  let ?srt = "sort_key (\<lambda>x. - cand_score x) ?rel"
  have stable: "filter (\<lambda>x. cand_score x = k) ?srt = filter (\<lambda>x. cand_score x = k) ?rel" for k
    using sort_key_stable [of "\<lambda>x. - cand_score x" "- k" ?rel] by simp
  have res: "fst (find_relevant_documents query w) =
      (if length ?srt \<ge> 2 \<and> cand_score (?srt ! 0) > cand_score (?srt ! 1) * 2
       then take 1 ?srt else take 2 ?srt)"
    by (simp add: find_relevant_documents_rank rank_candidates_def Let_def)
  have len: "length (fst (find_relevant_documents query w)) \<le> 2"
    by (simp add: find_relevant_documents_rank length_rank_candidates)
  show ?thesis
    unfolding Let_def
    using stable len sorted_desc_sort_key [of ?rel] res
    by (simp add: mult.commute)
qed

lemma demo_admitted_dominant:
  "admitted_candidates ''vacation leave policy'' demo_world =
     [(''pto_policy'', ''documents/pto_policy.txt'', 15, pto_text),
      (''notes'', ''documents/notes.txt'', 6, notes_text)]"
  by code_simp

lemma demo_admitted_close:
  "admitted_candidates ''vacation leave policy manager'' demo_world =
     [(''pto_policy'', ''documents/pto_policy.txt'', 15, pto_text),
      (''notes'', ''documents/notes.txt'', 8, notes_text)]"
  by code_simp

lemma demo_sorted_dominant:
  "sort_key (\<lambda>x. - cand_score x) (admitted_candidates ''vacation leave policy'' demo_world) =
     [(''pto_policy'', ''documents/pto_policy.txt'', 15, pto_text),
      (''notes'', ''documents/notes.txt'', 6, notes_text)]"
  by (simp only: demo_admitted_dominant) (simp add: cand_score_def)

lemma demo_sorted_close:
  "sort_key (\<lambda>x. - cand_score x)
     (admitted_candidates ''vacation leave policy manager'' demo_world) =
     [(''pto_policy'', ''documents/pto_policy.txt'', 15, pto_text),
      (''notes'', ''documents/notes.txt'', 8, notes_text)]"
  by (simp only: demo_admitted_close) (simp add: cand_score_def)

theorem dominance_rule_witness:
  "(let sorted_docs = sort_key (\<lambda>x. - cand_score x)
                        (admitted_candidates ''vacation leave policy'' demo_world)
    in length sorted_docs \<ge> 2 \<and>
       cand_score (sorted_docs ! 0) > 2 * cand_score (sorted_docs ! 1) \<and>
       fst (find_relevant_documents ''vacation leave policy'' demo_world) =
         [(''pto_policy'', ''documents/pto_policy.txt'', 15, pto_text)]) \<and>
   (let sorted_docs = sort_key (\<lambda>x. - cand_score x)
                        (admitted_candidates ''vacation leave policy manager'' demo_world)
    in \<not> (length sorted_docs \<ge> 2 \<and>
           cand_score (sorted_docs ! 0) > 2 * cand_score (sorted_docs ! 1)) \<and>
       fst (find_relevant_documents ''vacation leave policy manager'' demo_world) =
         [(''pto_policy'', ''documents/pto_policy.txt'', 15, pto_text),
          (''notes'', ''documents/notes.txt'', 8, notes_text)])"
proof -
  let ?s1 = "sort_key (\<lambda>x. - cand_score x)
               (admitted_candidates ''vacation leave policy'' demo_world)"
  let ?s2 = "sort_key (\<lambda>x. - cand_score x)
               (admitted_candidates ''vacation leave policy manager'' demo_world)"
  have h1: "length ?s1 \<ge> 2 \<and> cand_score (?s1 ! 0) > 2 * cand_score (?s1 ! 1)"
    by (simp only: demo_sorted_dominant) (simp add: cand_score_def)
  have h2: "\<not> (length ?s2 \<ge> 2 \<and> cand_score (?s2 ! 0) > 2 * cand_score (?s2 ! 1))"
    by (simp only: demo_sorted_close) (simp add: cand_score_def)
  from h1 dominance_rule [of "''vacation leave policy''" demo_world]
  have "fst (find_relevant_documents ''vacation leave policy'' demo_world) = take 1 ?s1"
    unfolding Let_def by blast
  then have r1: "fst (find_relevant_documents ''vacation leave policy'' demo_world) =
      [(''pto_policy'', ''documents/pto_policy.txt'', 15, pto_text)]"
    by (simp add: demo_sorted_dominant)
  from h2 dominance_rule [of "''vacation leave policy manager''" demo_world]
  have "fst (find_relevant_documents ''vacation leave policy manager'' demo_world) = take 2 ?s2"
    unfolding Let_def by blast
  then have r2: "fst (find_relevant_documents ''vacation leave policy manager'' demo_world) =
      [(''pto_policy'', ''documents/pto_policy.txt'', 15, pto_text),
       (''notes'', ''documents/notes.txt'', 8, notes_text)]"
    by (simp add: demo_sorted_close)
  show ?thesis
    unfolding Let_def using h1 h2 r1 r2 by blast
qed

text \<open>
  Claim C2. A candidate that the relevance matcher returns has a total score of at least 5,
  and its name matches are positive or its content matches exceed 2 or its pattern score is
  positive; the score is the total score of its name and of its content, the text extracted
  from its file.
\<close>

theorem admission_gate:
  assumes "x \<in> set (fst (find_relevant_documents query w))"
  shows "cand_score x \<ge> 5 \<and>
         cand_score x = total_score (lower query) (cand_name x) (cand_content x) \<and>
         cand_content x = extract_text_from_file w (cand_path x) \<and>
         (name_matches (lower query) (cand_name x) > 0 \<or>
          content_matches (lower query) (cand_content x) > 2 \<or>
          best_pattern_score (lower query) (cand_name x) > 0)"
proof -
  have mem: "x \<in> set (admitted_candidates query w)"
    using assms set_rank_candidates [of "admitted_candidates query w"]
    by (auto simp: find_relevant_documents_rank)
  from admitted_candidates_elem [OF mem]
  have a: "admitted (lower query) (cand_name x) (cand_content x)"
    and b: "cand_score x = total_score (lower query) (cand_name x) (cand_content x)"
    and c: "cand_content x = extract_text_from_file w (cand_path x)"
    by blast+
  from a b have "cand_score x \<ge> 5"
    by (simp only: admitted_def)
  moreover from a have "name_matches (lower query) (cand_name x) > 0 \<or>
      content_matches (lower query) (cand_content x) > 2 \<or>
      best_pattern_score (lower query) (cand_name x) > 0"
    by (simp only: admitted_def)
  ultimately show ?thesis
    using b c by blast
qed

lemma demo_found_dominant:
  "fst (find_relevant_documents ''vacation leave policy'' demo_world) =
     [(''pto_policy'', ''documents/pto_policy.txt'', 15, pto_text)]"
  by (simp only: find_relevant_documents_rank demo_admitted_dominant)
     (simp add: rank_candidates_def cand_score_def)

theorem admission_gate_witness:
  "(''pto_policy'', ''documents/pto_policy.txt'', 15, pto_text)
     \<in> set (fst (find_relevant_documents ''vacation leave policy'' demo_world)) \<and>
   (15::int) \<ge> 5 \<and>
   total_score (lower ''vacation leave policy'') ''pto_policy'' pto_text = 15 \<and>
   extract_text_from_file demo_world ''documents/pto_policy.txt'' = pto_text \<and>
   (name_matches (lower ''vacation leave policy'') ''pto_policy'' > 0 \<or>
    content_matches (lower ''vacation leave policy'') pto_text > 2 \<or>
    best_pattern_score (lower ''vacation leave policy'') ''pto_policy'' > 0)"
proof -
  let ?x = "(''pto_policy'', ''documents/pto_policy.txt'', 15::int, pto_text)"
  have h: "?x \<in> set (fst (find_relevant_documents ''vacation leave policy'' demo_world))"
    by (simp add: demo_found_dominant)
  have sel: "cand_score ?x = 15" "cand_name ?x = ''pto_policy''" "cand_content ?x = pto_text"
    "cand_path ?x = ''documents/pto_policy.txt''"
    by (simp_all add: cand_score_def cand_name_def cand_content_def cand_path_def)
  show ?thesis
    using h admission_gate [OF h] unfolding sel by simp
qed

section \<open>Properties of the source filter\<close>

lemma source_loop_eq:
  "source_loop response_lower excerpts acc =
     acc @ filter (is_referenced response_lower) excerpts"
  by (induction excerpts arbitrary: acc) simp_all

lemma filter_sources_eq:
  "filter_sources answer document_excerpts =
     filter (is_referenced (lower answer)) document_excerpts"
  by (simp add: filter_sources_def source_loop_eq)

text \<open>
  Claim C3. The sources that the filter returns are a subsequence of the excerpts it was
  given: every returned source was offered, and the returned sources stand in the order of
  the input, as do their document identifiers.
\<close>

theorem filter_sources_subseq:
  "subseq (filter_sources answer document_excerpts) document_excerpts \<and>
   subseq (map document (filter_sources answer document_excerpts))
          (map document document_excerpts) \<and>
   set (filter_sources answer document_excerpts) \<subseteq> set document_excerpts"
proof -
  have s: "subseq (filter_sources answer document_excerpts) document_excerpts"
    by (simp add: filter_sources_eq)
  then have "subseq (map document (filter_sources answer document_excerpts))
               (map document document_excerpts)"
    by (rule subseq_map)
  with s show ?thesis
    by (simp add: filter_sources_eq)
qed

lemma demo_excerpts:
  "get_document_excerpts
     [(''pto_policy'', ''documents/pto_policy.txt'', 15, pto_text),
      (''notes'', ''documents/notes.txt'', 8, notes_text)] ''vacation leave policy manager'' =
   [\<lparr>document = ''pto_policy'', excerpt_text = pto_text, highlight = pto_text\<rparr>,
    \<lparr>document = ''notes'', excerpt_text = notes_text, highlight = notes_text\<rparr>]"
  by code_simp

lemma demo_filter_sources:
  "filter_sources ''Employees receive fifteen of them annually.''
     [\<lparr>document = ''pto_policy'', excerpt_text = pto_text, highlight = pto_text\<rparr>,
      \<lparr>document = ''notes'', excerpt_text = notes_text, highlight = notes_text\<rparr>] =
   [\<lparr>document = ''pto_policy'', excerpt_text = pto_text, highlight = pto_text\<rparr>]"
  by code_simp

theorem filter_sources_subseq_witness:
  "filter_sources ''Employees receive fifteen of them annually.''
     [\<lparr>document = ''pto_policy'', excerpt_text = pto_text, highlight = pto_text\<rparr>,
      \<lparr>document = ''notes'', excerpt_text = notes_text, highlight = notes_text\<rparr>] =
   [\<lparr>document = ''pto_policy'', excerpt_text = pto_text, highlight = pto_text\<rparr>] \<and>
   subseq [''pto_policy''] [''pto_policy'', ''notes'']"
  using filter_sources_subseq [of "''Employees receive fifteen of them annually.''"
    "[\<lparr>document = ''pto_policy'', excerpt_text = pto_text, highlight = pto_text\<rparr>,
      \<lparr>document = ''notes'', excerpt_text = notes_text, highlight = notes_text\<rparr>]"]
  by (simp add: demo_filter_sources)

text \<open>The test of one key phrase in the loop of the source filter.\<close>

lemma phrase_loop_eq:
  "phrase_loop response_lower phrases is_ref \<longleftrightarrow>
     is_ref \<or>
     (\<exists>phrase \<in> set phrases.
        let phrase_words = filter (\<lambda>w. length w > 4) (split_ws phrase)
        in length phrase_words \<ge> 2 \<and>
           real (length (filter (\<lambda>word. str_in word response_lower) phrase_words))
             \<ge> real (length phrase_words) * 0.6)"
  by (induction phrases) (auto simp: Let_def)

lemma fraction_ge:
  assumes "n \<ge> (2::nat)"
  shows "real m \<ge> real n * 0.6 \<longleftrightarrow> real m / real n \<ge> 0.6"
proof -
  from assms have "real n > 0" by simp
  then show ?thesis
    by (simp add: pos_le_divide_eq mult.commute)
qed

text \<open>
  Claim C4. For a candidate of whose identifier no word occurs in the lowercased answer, the
  source filter marks it referenced exactly when, among the first three fragments of its
  lowercased text between periods whose stripped length exceeds 20, there is one with at
  least two words of more than 4 characters of which the fraction occurring in the
  lowercased answer is at least 0.6.
\<close>

theorem is_referenced_by_content:
  assumes "\<not> name_mentioned (lower answer) (lower (document excerpt))"
  shows "is_referenced (lower answer) excerpt \<longleftrightarrow>
     (\<exists>fragment \<in> set (take 3 (filter (\<lambda>f. length (strip f) > 20)
                              (split_on CHR ''.'' (lower (excerpt_text excerpt))))).
        let significant = filter (\<lambda>w. length w > 4) (split_ws (strip fragment))
        in length significant \<ge> 2 \<and>
           real (length (filter (\<lambda>w. str_in w (lower answer)) significant))
             / real (length significant) \<ge> 0.6)"
proof -
  let ?frags = "take 3 (filter (\<lambda>f. length (strip f) > 20)
                  (split_on CHR ''.'' (lower (excerpt_text excerpt))))"
  have kp: "key_phrases_from_doc (lower (excerpt_text excerpt)) = map strip ?frags"
    by (simp add: key_phrases_from_doc_def take_map)
  have "is_referenced (lower answer) excerpt \<longleftrightarrow>
      (\<exists>phrase \<in> set (map strip ?frags).
        let phrase_words = filter (\<lambda>w. length w > 4) (split_ws phrase)
        in length phrase_words \<ge> 2 \<and>
           real (length (filter (\<lambda>word. str_in word (lower answer)) phrase_words))
             \<ge> real (length phrase_words) * 0.6)"
    using assms by (simp add: is_referenced_def Let_def phrase_loop_eq kp)
  also have "\<dots> \<longleftrightarrow>
      (\<exists>fragment \<in> set ?frags.
        let significant = filter (\<lambda>w. length w > 4) (split_ws (strip fragment))
        in length significant \<ge> 2 \<and>
           real (length (filter (\<lambda>w. str_in w (lower answer)) significant))
             / real (length significant) \<ge> 0.6)"
    using fraction_ge by (auto simp: Let_def)
  finally show ?thesis .
qed

lemma demo_not_mentioned:
  "\<not> name_mentioned (lower ''Employees receive fifteen of them annually.'')
       (lower (document \<lparr>document = ''pto_policy'', excerpt_text = pto_text,
                          highlight = pto_text\<rparr>))"
  by code_simp

lemma demo_is_referenced:
  "is_referenced (lower ''Employees receive fifteen of them annually.'')
     \<lparr>document = ''pto_policy'', excerpt_text = pto_text, highlight = pto_text\<rparr>"
  by code_simp

theorem is_referenced_by_content_witness:
  "\<not> name_mentioned (lower ''Employees receive fifteen of them annually.'')
       (lower (document \<lparr>document = ''pto_policy'', excerpt_text = pto_text,
                          highlight = pto_text\<rparr>)) \<and>
   (\<exists>fragment \<in> set (take 3 (filter (\<lambda>f. length (strip f) > 20)
                            (split_on CHR ''.'' (lower pto_text)))).
      let significant = filter (\<lambda>w. length w > 4) (split_ws (strip fragment))
      in length significant \<ge> 2 \<and>
         real (length (filter (\<lambda>w. str_in w
                 (lower ''Employees receive fifteen of them annually.'')) significant))
           / real (length significant) \<ge> 0.6)"
  using demo_not_mentioned demo_is_referenced
    is_referenced_by_content [OF demo_not_mentioned]
  by simp

section \<open>Properties of the pattern score\<close>

lemma best_pattern_loop_Max:
  "best_pattern_loop query_lower doc_name_lower items best =
     Max (insert best (pattern_score query_lower doc_name_lower ` set items))"
proof (induction items arbitrary: best)
  case Nil
  show ?case by simp
next
  case (Cons item rest)
  let ?s = "pattern_score query_lower doc_name_lower item"
  let ?R = "pattern_score query_lower doc_name_lower ` set rest"
  have fin: "finite ?R" by simp
  have "best_pattern_loop query_lower doc_name_lower (item # rest) best =
      Max (insert (max ?s best) ?R)"
    by (simp add: Cons.IH Let_def max_def not_less)
  also have "\<dots> = Max (insert best (insert ?s ?R))"
  proof (cases "?R = {}")
    case True
    then show ?thesis by (simp add: max.commute)
  next
    case False
    with fin show ?thesis
      by (simp add: max.assoc max.commute max.left_commute)
  qed
  finally show ?case by simp
qed

text \<open>
  Claim C7, as amended. The pattern score of a document is the maximum, over the topics of
  the pattern table, of five times the number of the topic's keywords that occur in the
  lowercased query, taken over the topics of which a part of the name (split at underscores)
  occurs as a substring in the lowercased document identifier; a topic without such a part
  counts 0, and so does an empty maximum.
\<close>

theorem best_pattern_score_max:
  "best_pattern_score query_lower doc_name =
     Max (insert 0
       ((\<lambda>item. if (\<exists>pattern_part \<in> set (split_on CHR ''_'' (fst item)).
                       str_in pattern_part (lower doc_name))
                 then 5 * count_in (snd item) query_lower
                 else 0) ` set doc_patterns))"
proof -
  have "pattern_score query_lower (lower doc_name) =
      (\<lambda>item. if (\<exists>pattern_part \<in> set (split_on CHR ''_'' (fst item)).
                     str_in pattern_part (lower doc_name))
                then 5 * count_in (snd item) query_lower
                else 0)"
    by (rule ext) (simp add: pattern_score_def Let_def list_ex_iff)
  then show ?thesis
    by (simp only: best_pattern_score_def best_pattern_loop_Max)
qed

lemma demo_pattern_score: "best_pattern_score ''vpn password'' ''visitor_guide'' = 10"
  by code_simp

theorem best_pattern_score_max_witness:
  "best_pattern_score ''vpn password'' ''visitor_guide'' = 10 \<and>
   Max (insert 0
       ((\<lambda>item. if (\<exists>pattern_part \<in> set (split_on CHR ''_'' (fst item)).
                       str_in pattern_part (lower ''visitor_guide''))
                 then 5 * count_in (snd item) ''vpn password''
                 else 0) ` set doc_patterns)) = 10"
  using best_pattern_score_max [of "''vpn password''" "''visitor_guide''"] demo_pattern_score
  by simp

text \<open>
  The claim as stated fails: the identifier \<open>visitor_guide\<close> has the tokens \<open>visitor\<close> and
  \<open>guide\<close> and shares none with a topic name, yet the part \<open>it\<close> of \<open>it_security_policy\<close>
  occurs inside \<open>visitor\<close>, and the two keywords of that topic in the query count five each.
\<close>

theorem pattern_score_counterexample:
  "best_pattern_score ''vpn password'' ''visitor_guide'' = 10 \<and>
   \<not> list_ex (\<lambda>item. shares_token ''visitor_guide'' (fst item)) doc_patterns \<and>
   spec_pattern_score 1 ''vpn password'' ''visitor_guide'' = 2 \<and>
   spec_pattern_score 0 ''vpn password'' ''visitor_guide'' = 0"
  by code_simp

section \<open>Properties of the folder scan\<close>

lemma scan_entries_distinct:
  "distinct (map fst documents) \<Longrightarrow>
   distinct (map fst (scan_entries documents_folder entries documents))"
proof (induction entries arbitrary: documents)
  case Nil
  then show ?case by simp
next
  case (Cons entry rest)
  obtain filename is_dir where e: "entry = (filename, is_dir)" by (cases entry)
  show ?case
    using Cons.prems
    by (simp add: e Let_def Cons.IH distinct_update)
qed

lemma scan_entries_map_of:
  "map_of (scan_entries documents_folder entries documents) =
     map_of documents ++
     map_of (rev (map (\<lambda>filename. (doc_key filename, path_join documents_folder filename))
                   (supported_files entries)))"
proof (induction entries arbitrary: documents)
  case Nil
  show ?case by (simp add: supported_files_def)
next
  case (Cons entry rest)
  obtain filename is_dir where e: "entry = (filename, is_dir)" by (cases entry)
  show ?case
  proof (cases "\<not> is_dir \<and> snd (splitext (lower filename)) \<in> set supported_extensions")
    case True
    then have "supported_files (entry # rest) = filename # supported_files rest"
      by (simp add: supported_files_def e)
    moreover have "scan_entries documents_folder (entry # rest) documents =
        scan_entries documents_folder rest
          (AList.update (doc_key filename) (path_join documents_folder filename) documents)"
      using True by (simp add: e Let_def)
    ultimately show ?thesis
      by (simp only: Cons.IH update_conv')
         (auto simp: fun_eq_iff map_add_def split: option.splits)
  next
    case False
    then have "supported_files (entry # rest) = supported_files rest"
      by (auto simp: supported_files_def e)
    moreover have "scan_entries documents_folder (entry # rest) documents =
        scan_entries documents_folder rest documents"
      using False by (auto simp: e Let_def)
    ultimately show ?thesis
      by (simp add: Cons.IH)
  qed
qed

text \<open>
  What the scan returns: each identifier once; with the folder listed, the identifiers of
  the supported files, each with the path of the last supported file in the listing that has
  this identifier.
\<close>

lemma scan_documents_folder_keys:
  assumes "scan_documents_folder documents_folder w = (Inr documents, w')"
  shows "distinct (map fst documents) \<and>
         (\<forall>entries. folder w = Listing entries \<longrightarrow>
            fst ` set documents = doc_key ` set (supported_files entries) \<and>
            map_of documents =
              map_of (rev (map (\<lambda>filename. (doc_key filename,
                                   path_join documents_folder filename))
                            (supported_files entries))))"
proof -
  have d: "distinct (map fst documents)"
    using assms scan_entries_distinct [of "[]" documents_folder]
    by (auto simp: scan_documents_folder_def split: folder_state.splits)
  have m: "map_of documents =
             map_of (rev (map (\<lambda>filename. (doc_key filename,
                                  path_join documents_folder filename))
                           (supported_files entries)))"
    if "folder w = Listing entries" for entries
    using assms that scan_entries_map_of [of documents_folder entries "[]"]
    by (auto simp: scan_documents_folder_def)
  have k: "fst ` set documents = doc_key ` set (supported_files entries)"
    if "folder w = Listing entries" for entries
  proof -
    have "dom (map_of documents) =
        dom (map_of (rev (map (\<lambda>filename. (doc_key filename,
                                  path_join documents_folder filename))
                           (supported_files entries))))"
      using m [OF that] by simp
    then show ?thesis
      by (simp add: dom_map_of_conv_image_fst image_image)
  qed
  from d m k show ?thesis by blast
qed

text \<open>
  Claim C8. Distinct supported files are to get distinct identifiers, so that no document is
  lost to a collision. The scan does not do so: \<open>pto policy.txt\<close> and \<open>pto-policy.pdf\<close> are
  two supported files with the one identifier \<open>pto_policy\<close>, and the scan of a folder that
  holds both returns a single entry, with the path of whichever file the listing gives last;
  the other file is missing from the result.
\<close>

theorem scan_collision:
  "''pto policy.txt'' \<noteq> ''pto-policy.pdf'' \<and>
   doc_key ''pto policy.txt'' = doc_key ''pto-policy.pdf'' \<and>
   supported_files [(''pto policy.txt'', False), (''pto-policy.pdf'', False)] =
     [''pto policy.txt'', ''pto-policy.pdf''] \<and>
   fst (scan_documents_folder ''documents''
     (same_text_world [(''pto policy.txt'', False), (''pto-policy.pdf'', False)])) =
     Inr [(''pto_policy'', ''documents/pto-policy.pdf'')] \<and>
   fst (scan_documents_folder ''documents''
     (same_text_world [(''pto-policy.pdf'', False), (''pto policy.txt'', False)])) =
     Inr [(''pto_policy'', ''documents/pto policy.txt'')]"
  by code_simp

section \<open>The matcher as a function of the corpus\<close>

lemma admitted_candidates_corpus:
  "admitted_candidates query w =
     map (\<lambda>(n, p, c). (n, p, total_score (lower query) n c, c))
       (filter (\<lambda>(n, p, c). admitted (lower query) n c) (corpus w))"
proof (cases "processor w")
  case None
  then show ?thesis by (simp add: admitted_candidates_def corpus_def)
next
  case (Some documents_folder)
  show ?thesis
  proof (cases "folder w")
    case (Listing entries)
    have "admitted_candidates query w =
        score_documents w (lower query) (scan_entries documents_folder entries []) []"
      using Some Listing by (simp add: admitted_candidates_def scan_documents_folder_def)
    moreover have "corpus w =
        map (\<lambda>(doc_name, file_path). (doc_name, file_path, extract_text_from_file w file_path))
          (scan_entries documents_folder entries [])"
      using Some Listing by (simp add: corpus_def)
    ultimately show ?thesis
      by (simp add: score_documents_eq filter_map comp_def case_prod_unfold)
  qed (use Some in \<open>simp_all add: admitted_candidates_def scan_documents_folder_def corpus_def\<close>)
qed

lemma find_relevant_documents_world:
  "processor (snd (find_relevant_documents query w)) = processor w \<and>
   client (snd (find_relevant_documents query w)) = client w \<and>
   generator (snd (find_relevant_documents query w)) = generator w \<and>
   reads (snd (find_relevant_documents query w)) = reads w \<and>
   (\<forall>entries. folder w = Listing entries \<longrightarrow> snd (find_relevant_documents query w) = w)"
  by (auto simp: find_relevant_documents_def scan_documents_folder_def Let_def
      split: option.splits folder_state.splits)

lemma demo_admitted_failed:
  "admitted_candidates ''permission denied reading'' demo_world =
     [(''memo'', ''documents/memo.txt'', 6,
       ''Error reading documents/memo.txt: Permission denied'')]"
  by code_simp

lemma demo_found_failed:
  "fst (find_relevant_documents ''permission denied reading'' demo_world) =
     [(''memo'', ''documents/memo.txt'', 6,
       ''Error reading documents/memo.txt: Permission denied'')]"
  by (simp only: find_relevant_documents_rank demo_admitted_failed)
     (simp add: rank_candidates_def cand_score_def)

section \<open>Runs of the matcher one after another\<close>

text \<open>What a run does to the environment.\<close>

lemma find_relevant_documents_effect:
  "snd (find_relevant_documents query w) =
     (case processor w of
        None \<Rightarrow> w
      | Some documents_folder \<Rightarrow>
          (case folder w of
             Missing \<Rightarrow> w\<lparr>folder := Listing []\<rparr>
           | Uncreatable e \<Rightarrow> w\<lparr>log := log w @ [''Error finding relevant documents: '' @ e]\<rparr>
           | Unlistable e \<Rightarrow> w\<lparr>log := log w @ [''Error finding relevant documents: '' @ e]\<rparr>
           | Listing entries \<Rightarrow> w))"
  by (simp add: find_relevant_documents_def scan_documents_folder_def Let_def
      split: option.splits folder_state.splits)

lemma find_relevant_documents_result:
  "fst (find_relevant_documents query w) =
     (case processor w of
        None \<Rightarrow> []
      | Some documents_folder \<Rightarrow>
          (case folder w of
             Listing entries \<Rightarrow>
               rank_candidates
                 (score_documents w (lower query) (scan_entries documents_folder entries []) [])
           | _ \<Rightarrow> []))"
  by (simp add: find_relevant_documents_def scan_documents_folder_def Let_def
      rank_candidates_def split: option.splits folder_state.splits)

lemma score_documents_reads:
  assumes "reads w2 = reads w"
  shows "score_documents w2 q files acc = score_documents w q files acc"
  by (simp add: score_documents_eq extract_text_from_file_reads [OF assms])

text \<open>Environments that a run cannot tell apart from \<open>w\<close>: the same processor and the same
  file texts, and the same folder state, or a folder created empty where \<open>w\<close> has none.\<close>

lemma same_result:
  assumes "processor u = processor w" and "reads u = reads w"
    and "folder u = folder w \<or> (folder w = Missing \<and> folder u = Listing [])"
  shows "fst (find_relevant_documents query u) = fst (find_relevant_documents query w)"
proof (cases "folder u = folder w")
  case True
  with assms(1) show ?thesis
    by (simp add: find_relevant_documents_result score_documents_reads [OF assms(2)]
        split: option.splits folder_state.splits)
next
  case False
  with assms(3) have "folder w = Missing" and "folder u = Listing []" by simp_all
  with assms(1) show ?thesis
    by (simp add: find_relevant_documents_result rank_candidates_def split: option.splits)
qed

lemma earlier_runs:
  "processor (fold (\<lambda>q u. snd (find_relevant_documents q u)) earlier w) = processor w \<and>
   reads (fold (\<lambda>q u. snd (find_relevant_documents q u)) earlier w) = reads w \<and>
   (folder (fold (\<lambda>q u. snd (find_relevant_documents q u)) earlier w) = folder w \<or>
    (folder w = Missing \<and>
     folder (fold (\<lambda>q u. snd (find_relevant_documents q u)) earlier w) = Listing []))"
proof (induction earlier rule: rev_induct)
  case Nil
  show ?case by simp
next
  case (snoc q earlier)
  let ?u = "fold (\<lambda>q u. snd (find_relevant_documents q u)) earlier w"
  have step: "fold (\<lambda>q u. snd (find_relevant_documents q u)) (earlier @ [q]) w =
      snd (find_relevant_documents q ?u)"
    by simp
  show ?case
    unfolding step using snoc.IH
    by (auto simp: find_relevant_documents_effect split: option.splits folder_state.splits)
qed

text \<open>
  Claim C9, as amended. The result of a run is the same after any earlier runs of the
  matcher, so a second run with the same query returns the candidates of the first, in the
  same order and with the same scores. A run is not free of effects: with a processor set,
  it creates the documents folder where it is missing and logs an error where the folder
  cannot be created or listed; it changes nothing else. Two environments with the same
  processor, the same folder state, listing order included, and the same file texts give the
  same result, whatever else differs.
\<close>

theorem matcher_rerun:
  "fst (find_relevant_documents query
          (fold (\<lambda>q u. snd (find_relevant_documents q u)) earlier w)) =
     fst (find_relevant_documents query w) \<and>
   snd (find_relevant_documents query w) =
     (case processor w of
        None \<Rightarrow> w
      | Some documents_folder \<Rightarrow>
          (case folder w of
             Missing \<Rightarrow> w\<lparr>folder := Listing []\<rparr>
           | Uncreatable e \<Rightarrow> w\<lparr>log := log w @ [''Error finding relevant documents: '' @ e]\<rparr>
           | Unlistable e \<Rightarrow> w\<lparr>log := log w @ [''Error finding relevant documents: '' @ e]\<rparr>
           | Listing entries \<Rightarrow> w)) \<and>
   (processor w2 = processor w \<and> folder w2 = folder w \<and> reads w2 = reads w \<longrightarrow>
      fst (find_relevant_documents query w2) = fst (find_relevant_documents query w))"
proof -
  have a: "fst (find_relevant_documents query
          (fold (\<lambda>q u. snd (find_relevant_documents q u)) earlier w)) =
     fst (find_relevant_documents query w)"
    using earlier_runs [of earlier w] by (intro same_result) blast+
  have c: "fst (find_relevant_documents query w2) = fst (find_relevant_documents query w)"
    if "processor w2 = processor w" and "folder w2 = folder w" and "reads w2 = reads w"
    using that by (intro same_result) simp_all
  from a c find_relevant_documents_effect [of query w] show ?thesis
    by blast
qed

theorem matcher_rerun_witness:
  "fst (find_relevant_documents ''vacation leave policy''
          (fold (\<lambda>q u. snd (find_relevant_documents q u))
             [''permission denied reading'', ''vacation leave policy''] demo_world)) =
     [(''pto_policy'', ''documents/pto_policy.txt'', 15, pto_text)] \<and>
   processor (demo_world\<lparr>client := False, log := [''an earlier message'']\<rparr>) =
     processor demo_world \<and>
   folder (demo_world\<lparr>client := False, log := [''an earlier message'']\<rparr>) = folder demo_world \<and>
   reads (demo_world\<lparr>client := False, log := [''an earlier message'']\<rparr>) = reads demo_world \<and>
   fst (find_relevant_documents ''vacation leave policy''
          (demo_world\<lparr>client := False, log := [''an earlier message'']\<rparr>)) =
     [(''pto_policy'', ''documents/pto_policy.txt'', 15, pto_text)]"
proof -
  let ?w2 = "demo_world\<lparr>client := False, log := [''an earlier message'']\<rparr>"
  note t = matcher_rerun [of "''vacation leave policy''"
    "[''permission denied reading'', ''vacation leave policy'']" demo_world ?w2]
  from t have "fst (find_relevant_documents ''vacation leave policy''
          (fold (\<lambda>q u. snd (find_relevant_documents q u))
             [''permission denied reading'', ''vacation leave policy''] demo_world)) =
     fst (find_relevant_documents ''vacation leave policy'' demo_world)"
    by blast
  moreover from t have "fst (find_relevant_documents ''vacation leave policy'' ?w2) =
      fst (find_relevant_documents ''vacation leave policy'' demo_world)"
    by simp
  ultimately show ?thesis
    by (simp only: demo_found_dominant) simp
qed

text \<open>
  The claim as stated fails. A run is not free of effects: it creates a missing folder, and
  it logs when the folder cannot be listed. And the same three files with the same text give
  different results when the folder lists them in another order, since candidates of equal
  score keep their scan order.
\<close>

lemma demo_admitted_abc:
  "admitted_candidates ''vacation leave policy''
     (same_text_world [(''a.txt'', False), (''b.txt'', False), (''c.txt'', False)]) =
     [(''a'', ''documents/a.txt'', 6, ''vacation leave policy''),
      (''b'', ''documents/b.txt'', 6, ''vacation leave policy''),
      (''c'', ''documents/c.txt'', 6, ''vacation leave policy'')]"
  by code_simp

lemma demo_admitted_cba:
  "admitted_candidates ''vacation leave policy''
     (same_text_world [(''c.txt'', False), (''b.txt'', False), (''a.txt'', False)]) =
     [(''c'', ''documents/c.txt'', 6, ''vacation leave policy''),
      (''b'', ''documents/b.txt'', 6, ''vacation leave policy''),
      (''a'', ''documents/a.txt'', 6, ''vacation leave policy'')]"
  by code_simp

theorem matcher_effects_counterexample:
  "folder (demo_world\<lparr>folder := Missing\<rparr>) = Missing \<and>
   folder (snd (find_relevant_documents ''vacation leave policy''
                  (demo_world\<lparr>folder := Missing\<rparr>))) = Listing [] \<and>
   log (demo_world\<lparr>folder := Unlistable ''Permission denied''\<rparr>) = [] \<and>
   log (snd (find_relevant_documents ''vacation leave policy''
               (demo_world\<lparr>folder := Unlistable ''Permission denied''\<rparr>))) =
     [''Error finding relevant documents: Permission denied''] \<and>
   fst (find_relevant_documents ''vacation leave policy''
          (same_text_world [(''a.txt'', False), (''b.txt'', False), (''c.txt'', False)])) =
     [(''a'', ''documents/a.txt'', 6, ''vacation leave policy''),
      (''b'', ''documents/b.txt'', 6, ''vacation leave policy'')] \<and>
   fst (find_relevant_documents ''vacation leave policy''
          (same_text_world [(''c.txt'', False), (''b.txt'', False), (''a.txt'', False)])) =
     [(''c'', ''documents/c.txt'', 6, ''vacation leave policy''),
      (''b'', ''documents/b.txt'', 6, ''vacation leave policy'')]"
proof -
  have m: "folder (snd (find_relevant_documents ''vacation leave policy''
                  (demo_world\<lparr>folder := Missing\<rparr>))) = Listing []"
    by (simp add: find_relevant_documents_effect demo_world_def)
  have u: "log (snd (find_relevant_documents ''vacation leave policy''
               (demo_world\<lparr>folder := Unlistable ''Permission denied''\<rparr>))) =
     [''Error finding relevant documents: Permission denied'']"
    by (simp add: find_relevant_documents_effect demo_world_def)
  have abc: "fst (find_relevant_documents ''vacation leave policy''
          (same_text_world [(''a.txt'', False), (''b.txt'', False), (''c.txt'', False)])) =
     [(''a'', ''documents/a.txt'', 6, ''vacation leave policy''),
      (''b'', ''documents/b.txt'', 6, ''vacation leave policy'')]"
    by (simp only: find_relevant_documents_rank demo_admitted_abc)
       (simp add: rank_candidates_def cand_score_def)
  have cba: "fst (find_relevant_documents ''vacation leave policy''
          (same_text_world [(''c.txt'', False), (''b.txt'', False), (''a.txt'', False)])) =
     [(''c'', ''documents/c.txt'', 6, ''vacation leave policy''),
      (''b'', ''documents/b.txt'', 6, ''vacation leave policy'')]"
    by (simp only: find_relevant_documents_rank demo_admitted_cba)
       (simp add: rank_candidates_def cand_score_def)
  from m u abc cba show ?thesis
    by (simp add: demo_world_def)
qed

section \<open>A document whose text cannot be read\<close>

lemma corpus_other_paths:
  assumes "processor w2 = processor w" and "folder w2 = folder w"
    and "\<forall>p. p \<noteq> file_path \<longrightarrow> reads w2 p = reads w p"
  shows "filter (\<lambda>(n, p, c). p \<noteq> file_path) (corpus w2) =
         filter (\<lambda>(n, p, c). p \<noteq> file_path) (corpus w)"
proof -
  have e: "extract_text_from_file w2 p = extract_text_from_file w p" if "p \<noteq> file_path" for p
    using assms(3) that by (simp add: extract_text_from_file_def Let_def)
  have m: "filter (\<lambda>(n, p, c). p \<noteq> file_path)
             (map (\<lambda>(n, p). (n, p, extract_text_from_file w2 p)) files) =
           filter (\<lambda>(n, p, c). p \<noteq> file_path)
             (map (\<lambda>(n, p). (n, p, extract_text_from_file w p)) files)" for files
    by (induction files) (auto simp: e)
  show ?thesis
    using assms(1,2) m
    by (auto simp: corpus_def split: option.splits folder_state.splits)
qed

lemma admitted_candidates_other_paths:
  "filter (\<lambda>x. cand_path x \<noteq> file_path) (admitted_candidates query w) =
     map (\<lambda>(n, p, c). (n, p, total_score (lower query) n c, c))
       (filter (\<lambda>(n, p, c). admitted (lower query) n c)
          (filter (\<lambda>(n, p, c). p \<noteq> file_path) (corpus w)))"
  by (simp add: admitted_candidates_corpus filter_map comp_def case_prod_unfold cand_path_def
      conj_commute)

text \<open>
  Claim C5, as amended. When the reader of a supported file raises, the text of the document
  is the message \<open>Error reading\<close> with the path and the detail of the exception. The document
  stays in the scan: where it passes the admission test on that message, it is a candidate,
  scored on the message. The candidates from the other files are those of any environment
  that differs only in what reading this file gives. With the folder listed, the run leaves
  the environment as it was: nothing is logged and the scan is not given up.
\<close>

theorem extraction_failure_scored:
  assumes "reads w file_path = Inl e"
    and "snd (splitext (lower file_path)) \<in> set supported_extensions"
  shows "extract_text_from_file w file_path = ''Error reading '' @ file_path @ '': '' @ e \<and>
    (\<forall>doc_name.
       (doc_name, file_path, ''Error reading '' @ file_path @ '': '' @ e) \<in> set (corpus w) \<and>
       admitted (lower query) doc_name (''Error reading '' @ file_path @ '': '' @ e) \<longrightarrow>
       (doc_name, file_path,
        total_score (lower query) doc_name (''Error reading '' @ file_path @ '': '' @ e),
        ''Error reading '' @ file_path @ '': '' @ e) \<in> set (admitted_candidates query w)) \<and>
    (\<forall>w2. processor w2 = processor w \<and> folder w2 = folder w \<and>
          (\<forall>p. p \<noteq> file_path \<longrightarrow> reads w2 p = reads w p) \<longrightarrow>
          filter (\<lambda>x. cand_path x \<noteq> file_path) (admitted_candidates query w2) =
          filter (\<lambda>x. cand_path x \<noteq> file_path) (admitted_candidates query w)) \<and>
    (\<forall>entries. folder w = Listing entries \<longrightarrow> snd (find_relevant_documents query w) = w)"
proof -
  have a: "extract_text_from_file w file_path = ''Error reading '' @ file_path @ '': '' @ e"
    using assms by (auto simp: extract_text_from_file_def supported_extensions_def Let_def)
  have b: "(doc_name, file_path,
        total_score (lower query) doc_name (''Error reading '' @ file_path @ '': '' @ e),
        ''Error reading '' @ file_path @ '': '' @ e) \<in> set (admitted_candidates query w)"
    if "(doc_name, file_path, ''Error reading '' @ file_path @ '': '' @ e) \<in> set (corpus w)"
      and "admitted (lower query) doc_name (''Error reading '' @ file_path @ '': '' @ e)"
    for doc_name
    using that by (force simp: admitted_candidates_corpus)
  have c: "filter (\<lambda>x. cand_path x \<noteq> file_path) (admitted_candidates query w2) =
           filter (\<lambda>x. cand_path x \<noteq> file_path) (admitted_candidates query w)"
    if "processor w2 = processor w" and "folder w2 = folder w"
      and "\<forall>p. p \<noteq> file_path \<longrightarrow> reads w2 p = reads w p"
    for w2
    using corpus_other_paths [OF that]
    by (simp only: admitted_candidates_other_paths)
  have d: "snd (find_relevant_documents query w) = w" if "folder w = Listing entries"
    for entries
    using that find_relevant_documents_world [of query w] by blast
  from a b c d show ?thesis by blast
qed

lemma demo_memo_ext:
  "snd (splitext (lower ''documents/memo.txt'')) \<in> set supported_extensions"
  by code_simp

theorem extraction_failure_scored_witness:
  "reads demo_world ''documents/memo.txt'' = Inl ''Permission denied'' \<and>
   snd (splitext (lower ''documents/memo.txt'')) \<in> set supported_extensions \<and>
   extract_text_from_file demo_world ''documents/memo.txt'' =
     ''Error reading documents/memo.txt: Permission denied'' \<and>
   snd (find_relevant_documents ''permission denied reading'' demo_world) = demo_world"
proof -
  have h: "reads demo_world ''documents/memo.txt'' = Inl ''Permission denied''"
    by (simp add: demo_world_def)
  have f: "folder demo_world = Listing [(''pto_policy.txt'', False), (''notes.txt'', False),
                                (''archive'', True), (''memo.txt'', False)]"
    by (simp add: demo_world_def)
  from extraction_failure_scored [OF h demo_memo_ext, of "''permission denied reading''"]
  have "extract_text_from_file demo_world ''documents/memo.txt'' =
      ''Error reading '' @ ''documents/memo.txt'' @ '': '' @ ''Permission denied''"
    and "\<forall>entries. folder demo_world = Listing entries \<longrightarrow>
      snd (find_relevant_documents ''permission denied reading'' demo_world) = demo_world"
    by blast+
  with h f demo_memo_ext show ?thesis by simp
qed

text \<open>
  The claim as stated fails: the reader of \<open>memo.txt\<close> raises, and a query for the words of
  the message returns that document as the one candidate, with the message as its content;
  the environment after the run is the one before it, with nothing logged.
\<close>

theorem extraction_failure_counterexample:
  "reads demo_world ''documents/memo.txt'' = Inl ''Permission denied'' \<and>
   fst (find_relevant_documents ''permission denied reading'' demo_world) =
     [(''memo'', ''documents/memo.txt'', 6,
       ''Error reading documents/memo.txt: Permission denied'')] \<and>
   log (snd (find_relevant_documents ''permission denied reading'' demo_world)) = []"
proof -
  have "snd (find_relevant_documents ''permission denied reading'' demo_world) = demo_world"
    using find_relevant_documents_world [of "''permission denied reading''" demo_world]
    by (simp add: demo_world_def)
  then show ?thesis
    by (simp add: demo_found_failed) (simp add: demo_world_def)
qed

section \<open>A failing generator call\<close>










end
